theory Spec2Isabelle
  imports Complex_Main "HOL-Library.Sublist"
begin

section \<open>JavaScript values of the browser form\<close>

text \<open>
  A form field holds either the numeric default of its feature or the string that
  \<^verbatim>\<open>e.target.value\<close> delivers; \<^verbatim>\<open>features[key]\<close> of an absent key is
  \<^verbatim>\<open>undefined\<close>. Finite numbers are idealised as reals.
\<close>

datatype jsval = JUndefined | JNull | JNum real | JStr string

text \<open>The result of \<^verbatim>\<open>parseFloat\<close>: a finite number, an infinity or \<^verbatim>\<open>NaN\<close>.\<close>

datatype jsnum = NaN | NegInf | Fin real | PosInf

text \<open>\<^verbatim>\<open>x < m\<close> and \<^verbatim>\<open>x > m\<close> for a finite bound \<open>m\<close>; every comparison with
  \<^verbatim>\<open>NaN\<close> is false.\<close>

fun num_lt :: "jsnum \<Rightarrow> real \<Rightarrow> bool" where
  "num_lt NaN m = False"
| "num_lt NegInf m = True"
| "num_lt (Fin x) m = (x < m)"
| "num_lt PosInf m = False"

fun num_gt :: "jsnum \<Rightarrow> real \<Rightarrow> bool" where
  "num_gt NaN m = False"
| "num_gt NegInf m = False"
| "num_gt (Fin x) m = (x > m)"
| "num_gt PosInf m = True"

fun isNaN :: "jsnum \<Rightarrow> bool" where
  "isNaN NaN = True"
| "isNaN _ = False"

subsection \<open>parseFloat\<close>

text \<open>
  The builtin reads the longest prefix of the trimmed string that is a decimal literal
  (sign, \<^verbatim>\<open>Infinity\<close> or digits with an optional fraction and exponent) and yields
  \<^verbatim>\<open>NaN\<close> when there is none. Only the ASCII white space characters are trimmed here,
  and the value is the exact decimal, not its nearest double.
\<close>

definition is_ws :: "char \<Rightarrow> bool" where
  "is_ws c = (c \<in> set [CHR 0x09, CHR 0x0A, CHR 0x0B, CHR 0x0C, CHR 0x0D, CHR 0x20])"

definition is_digit :: "char \<Rightarrow> bool" where
  "is_digit c = (48 \<le> (of_char c :: nat) \<and> (of_char c :: nat) \<le> 57)"

definition dec :: "string \<Rightarrow> nat" where
  "dec ds = foldl (\<lambda>a c. 10 * a + (of_char c - 48)) 0 ds"

fun exponent :: "string \<Rightarrow> int" where
  "exponent [] = 0"
| "exponent (c # t) =
     (if c = CHR ''e'' \<or> c = CHR ''E'' then
        (case t of
           [] \<Rightarrow> 0
         | s # u \<Rightarrow>
             if s = CHR ''+'' then
               (if takeWhile is_digit u = [] then 0 else int (dec (takeWhile is_digit u)))
             else if s = CHR ''-'' then
               (if takeWhile is_digit u = [] then 0 else - int (dec (takeWhile is_digit u)))
             else
               (if takeWhile is_digit t = [] then 0 else int (dec (takeWhile is_digit t))))
      else 0)"

definition scale10 :: "real \<Rightarrow> int \<Rightarrow> real" where
  "scale10 m e = (if 0 \<le> e then m * 10 ^ nat e else m / 10 ^ nat (- e))"

definition parse_unsigned :: "string \<Rightarrow> real option option" where
  \<comment> \<open>\<open>None\<close>: no literal; \<open>Some None\<close>: \<^verbatim>\<open>Infinity\<close>; \<open>Some (Some x)\<close>: the decimal \<open>x\<close>.\<close>
  "parse_unsigned s =
     (if take 8 s = ''Infinity'' then Some None
      else
        let ip = takeWhile is_digit s;
            r1 = dropWhile is_digit s;
            fp = (case r1 of [] \<Rightarrow> [] | c # t \<Rightarrow> if c = CHR ''.'' then takeWhile is_digit t else []);
            r2 = (case r1 of [] \<Rightarrow> [] | c # t \<Rightarrow> if c = CHR ''.'' then dropWhile is_digit t else r1)
        in if ip = [] \<and> fp = [] then None
           else Some (Some (scale10 (real (dec ip) + real (dec fp) / 10 ^ length fp) (exponent r2))))"

definition parse_string :: "string \<Rightarrow> jsnum" where
  "parse_string s =
     (case dropWhile is_ws s of
        [] \<Rightarrow> NaN
      | c # t \<Rightarrow>
          if c = CHR ''-'' then
            (case parse_unsigned t of
               None \<Rightarrow> NaN | Some None \<Rightarrow> NegInf | Some (Some x) \<Rightarrow> Fin (- x))
          else
            (case parse_unsigned (if c = CHR ''+'' then t else c # t) of
               None \<Rightarrow> NaN | Some None \<Rightarrow> PosInf | Some (Some x) \<Rightarrow> Fin x))"

fun parseFloat :: "jsval \<Rightarrow> jsnum" where
  "parseFloat (JNum x) = Fin x"
| "parseFloat (JStr s) = parse_string s"
| "parseFloat JNull = NaN"
| "parseFloat JUndefined = NaN"

section \<open>Objects with ordered keys\<close>

text \<open>
  A JavaScript object with string keys keeps them in insertion order; assigning to a key
  it already has keeps the key's position (\<^verbatim>\<open>{ ...prev, [key]: value }\<close>).
\<close>

type_synonym 'a jsobj = "(string \<times> 'a) list"

fun obj_set :: "string \<Rightarrow> 'a \<Rightarrow> 'a jsobj \<Rightarrow> 'a jsobj" where
  "obj_set k v [] = [(k, v)]"
| "obj_set k v ((k', v') # rest) =
     (if k' = k then (k, v) # rest else (k', v') # obj_set k v rest)"

definition obj_get :: "jsval jsobj \<Rightarrow> string \<Rightarrow> jsval" where
  "obj_get obj k = (case map_of obj k of None \<Rightarrow> JUndefined | Some v \<Rightarrow> v)"

definition obj_keys :: "'a jsobj \<Rightarrow> string list" where
  "obj_keys obj = map fst obj"

section \<open>The feature schema of the input form\<close>

text \<open>
  One entry of \<^verbatim>\<open>FEATURE_CONFIG\<close>. The unit and the description are only displayed
  and are left out; no entry sets \<^verbatim>\<open>required\<close>, which is then falsy.
\<close>

record feature =
  key :: string
  name :: string
  min_val :: "real option"
  max_val :: "real option"
  default_val :: real
  required :: bool

definition mk_feature :: "string \<Rightarrow> string \<Rightarrow> real \<Rightarrow> real \<Rightarrow> real \<Rightarrow> feature" where
  "mk_feature k n lo hi d =
     \<lparr>key = k, name = n, min_val = Some lo, max_val = Some hi, default_val = d, required = False\<rparr>"

definition FEATURE_CONFIG :: "feature list" where
  "FEATURE_CONFIG =
    [mk_feature ''koi_prad'' ''Planetary Radius'' 0.1 30 2.0,
     mk_feature ''koi_depth'' ''Transit Depth'' 0 10000 100,
     mk_feature ''koi_period'' ''Orbital Period'' 0.1 1000 50,
     mk_feature ''koi_srad'' ''Stellar Radius'' 0.1 10 1.0,
     mk_feature ''koi_steff'' ''Stellar Temperature'' 2500 10000 5778,
     mk_feature ''koi_smass'' ''Stellar Mass'' 0.1 5 1.0,
     mk_feature ''koi_slogg'' ''Surface Gravity'' 1 5 4.5,
     mk_feature ''koi_lum'' ''Luminosity'' (-3) 5 0,
     mk_feature ''koi_impact'' ''Impact Parameter'' 0 2 0.5,
     mk_feature ''koi_duration'' ''Transit Duration'' 0.1 50 3,
     mk_feature ''koi_dor'' ''Distance Ratio'' 1 200 20,
     mk_feature ''koi_model_snr'' ''Signal-to-Noise'' 0 500 20,
     mk_feature ''koi_kepmag'' ''Kepler Magnitude'' 5 20 14,
     mk_feature ''koi_score'' ''Disposition Score'' 0 1 0.5,
     mk_feature ''koi_qof'' ''Quality Flag'' 0 1 0.9]"

section \<open>Validation utilities\<close>

text \<open>
  The messages of \<^verbatim>\<open>validateFeature\<close> as values; \<open>error_message\<close> renders the
  template strings, with the number formatting of the language taken as a parameter.
\<close>

datatype feature_error =
    UnknownFeature string
  | IsRequired string
  | MustBeNumber string
  | AtLeast string real
  | AtMost string real

fun error_message :: "(real \<Rightarrow> string) \<Rightarrow> feature_error \<Rightarrow> string" where
  "error_message show (UnknownFeature k) = ''Unknown feature: '' @ k"
| "error_message show (IsRequired n) = n @ '' is required''"
| "error_message show (MustBeNumber n) = n @ '' must be a number''"
| "error_message show (AtLeast n lo) = n @ '' must be at least '' @ show lo"
| "error_message show (AtMost n hi) = n @ '' must be at most '' @ show hi"

definition is_empty_value :: "jsval \<Rightarrow> bool" where
  "is_empty_value v = (v = JStr '''' \<or> v = JNull \<or> v = JUndefined)"

definition check_max :: "feature \<Rightarrow> jsnum \<Rightarrow> feature_error option" where
  "check_max fc x =
     (case max_val fc of
        None \<Rightarrow> None
      | Some hi \<Rightarrow> if num_gt x hi then Some (AtMost (name fc) hi) else None)"

definition check_min :: "feature \<Rightarrow> jsnum \<Rightarrow> feature_error option" where
  "check_min fc x =
     (case min_val fc of
        None \<Rightarrow> check_max fc x
      | Some lo \<Rightarrow> if num_lt x lo then Some (AtLeast (name fc) lo) else check_max fc x)"

definition validateFeature :: "string \<Rightarrow> jsval \<Rightarrow> feature list \<Rightarrow> feature_error option" where
  "validateFeature k v config =
     (case find (\<lambda>f. key f = k) config of
        None \<Rightarrow> Some (UnknownFeature k)
      | Some fc \<Rightarrow>
          if is_empty_value v then
            (if required fc then Some (IsRequired (name fc)) else None)
          else if isNaN (parseFloat v) then Some (MustBeNumber (name fc))
          else check_min fc (parseFloat v))"

text \<open>The loop of \<^verbatim>\<open>validateAllFeatures\<close> over the entries of the configuration, with
  the error object built so far.\<close>

fun validate_loop :: "jsval jsobj \<Rightarrow> feature list \<Rightarrow> feature list \<Rightarrow> feature_error jsobj
    \<Rightarrow> feature_error jsobj" where
  "validate_loop features config [] errors = errors"
| "validate_loop features config (f # fs) errors =
     (case validateFeature (key f) (obj_get features (key f)) config of
        None \<Rightarrow> validate_loop features config fs errors
      | Some e \<Rightarrow> validate_loop features config fs (obj_set (key f) e errors))"

definition validateAllFeatures :: "jsval jsobj \<Rightarrow> feature list \<Rightarrow> feature_error jsobj" where
  "validateAllFeatures features config = validate_loop features config config []"

definition isValidFeatures :: "jsval jsobj \<Rightarrow> feature list \<Rightarrow> bool" where
  "isValidFeatures features config = (length (obj_keys (validateAllFeatures features config)) = 0)"

definition getDefaultFeatures :: "feature list \<Rightarrow> jsval jsobj" where
  "getDefaultFeatures config = foldl (\<lambda>acc f. obj_set (key f) (JNum (default_val f)) acc) [] config"

section \<open>The input form\<close>

text \<open>
  The three pieces of state of \<^verbatim>\<open>InputForm\<close>. An entry of \<open>errors\<close> is a message or
  \<^verbatim>\<open>null\<close> (\<open>None\<close>), which \<^verbatim>\<open>handleChange\<close> writes to clear a field.
\<close>

record form_state =
  features :: "jsval jsobj"
  errors :: "feature_error option jsobj"
  touched :: "bool jsobj"

definition initial_form :: form_state where
  "initial_form =
     \<lparr>features = foldl (\<lambda>acc f. obj_set (key f) (JNum (default_val f)) acc) [] FEATURE_CONFIG,
      errors = [], touched = []\<rparr>"

definition truthy_error :: "feature_error option jsobj \<Rightarrow> string \<Rightarrow> bool" where
  \<comment> \<open>\<^verbatim>\<open>errors[key]\<close> is a message: an absent key and \<^verbatim>\<open>null\<close> are falsy. A message is
     never the empty string, since every template has fixed text.\<close>
  "truthy_error errs k = (case map_of errs k of Some (Some e) \<Rightarrow> True | _ \<Rightarrow> False)"

definition handleChange :: "string \<Rightarrow> jsval \<Rightarrow> form_state \<Rightarrow> form_state" where
  "handleChange k v st =
     (let st1 = st\<lparr>features := obj_set k v (features st)\<rparr>
      in if truthy_error (errors st) k then st1\<lparr>errors := obj_set k None (errors st)\<rparr> else st1)"

definition handleBlur :: "string \<Rightarrow> form_state \<Rightarrow> form_state" where
  "handleBlur k st =
     (let st1 = st\<lparr>touched := obj_set k True (touched st)\<rparr>
      in case validateFeature k (obj_get (features st) k) FEATURE_CONFIG of
           None \<Rightarrow> st1
         | Some e \<Rightarrow> st1\<lparr>errors := obj_set k (Some e) (errors st)\<rparr>)"

text \<open>\<^verbatim>\<open>handleSubmit\<close> returns the new state and the argument of the call of
  \<^verbatim>\<open>onSubmit\<close>, if it makes one.\<close>

definition handleSubmit :: "form_state \<Rightarrow> form_state \<times> jsval jsobj option" where
  "handleSubmit st =
     (let allErrors = validateAllFeatures (features st) FEATURE_CONFIG;
          st1 = st\<lparr>errors := map (\<lambda>(k, e). (k, Some e)) allErrors,
                   touched := foldl (\<lambda>acc f. obj_set (key f) True acc) [] FEATURE_CONFIG\<rparr>
      in (st1, if length (obj_keys allErrors) = 0 then Some (features st) else None))"

subsection \<open>The page: from the form to the prediction request\<close>

text \<open>The methods of an HTTP request; the client calls \<^verbatim>\<open>apiClient.get\<close> and
  \<^verbatim>\<open>apiClient.post\<close> only.\<close>

datatype http_method = GET | POST | PUT | PATCH | DELETE

record http_request =
  req_method :: http_method
  url :: string
  body :: "jsval jsobj option"
  params :: "(string \<times> int) list"

datatype task = Classification | Regression

definition predictClassification :: "jsval jsobj \<Rightarrow> http_request" where
  "predictClassification fs =
     \<lparr>req_method = POST, url = ''/api/predict/classification'', body = Some fs, params = []\<rparr>"

definition predictRegression :: "jsval jsobj \<Rightarrow> http_request" where
  "predictRegression fs =
     \<lparr>req_method = POST, url = ''/api/predict/regression'', body = Some fs, params = []\<rparr>"

definition getPredictionHistory :: "int \<Rightarrow> int \<Rightarrow> http_request" where
  "getPredictionHistory limit offset =
     \<lparr>req_method = GET, url = ''/api/predictions/history'', body = None,
      params = [(''limit'', limit), (''offset'', offset)]\<rparr>"

definition getModelInfo :: http_request where
  "getModelInfo = \<lparr>req_method = GET, url = ''/api/models/info'', body = None, params = []\<rparr>"

definition checkHealth :: http_request where
  "checkHealth = \<lparr>req_method = GET, url = ''/api/health'', body = None, params = []\<rparr>"

text \<open>The request that \<^verbatim>\<open>Home.handleSubmit\<close> sends for the features it is given.\<close>

definition home_handleSubmit :: "task \<Rightarrow> jsval jsobj \<Rightarrow> http_request" where
  "home_handleSubmit taskType fs =
     (if taskType = Classification then predictClassification fs else predictRegression fs)"

text \<open>Submitting the form on the page: the new form state and the requests sent.\<close>

definition submit_form :: "task \<Rightarrow> form_state \<Rightarrow> form_state \<times> http_request list" where
  "submit_form taskType st =
     (case handleSubmit st of
        (st1, None) \<Rightarrow> (st1, [])
      | (st1, Some fs) \<Rightarrow> (st1, [home_handleSubmit taskType fs]))"

subsection \<open>What the user does with the form\<close>

text \<open>
  The form renders one input per entry of \<^verbatim>\<open>FEATURE_CONFIG\<close>, so a change or a blur
  carries a key of the schema, and a change carries the string of the input element.
\<close>

datatype form_event = Change string jsval | Blur string | Submit

fun form_step :: "form_event \<Rightarrow> form_state \<Rightarrow> form_state" where
  "form_step (Change k v) st = handleChange k v st"
| "form_step (Blur k) st = handleBlur k st"
| "form_step Submit st = fst (handleSubmit st)"

definition run_events :: "form_event list \<Rightarrow> form_state \<Rightarrow> form_state" where
  "run_events evs st = foldl (\<lambda>s e. form_step e s) st evs"



text \<open>The field of entry \<open>f\<close> fails its own check.\<close>

definition failing :: "jsval jsobj \<Rightarrow> feature list \<Rightarrow> feature \<Rightarrow> bool" where
  "failing fs config f = (validateFeature (key f) (obj_get fs (key f)) config \<noteq> None)"


text \<open>Two states of the form: a radius typed in by the user, within and out of range.\<close>

definition typed_form :: form_state where
  "typed_form = run_events [Change ''koi_prad'' (JStr ''2.5'')] initial_form"

definition out_of_range_form :: form_state where
  "out_of_range_form = run_events [Change ''koi_prad'' (JStr ''999999'')] initial_form"

text \<open>The feature table of the API documentation has the entries of the form's schema
  but \<^verbatim>\<open>koi_qof\<close>, with the same ranges.\<close>

definition documented_features :: "feature list" where
  "documented_features = filter (\<lambda>f. key f \<noteq> ''koi_qof'') FEATURE_CONFIG"

section \<open>JSON values\<close>

text \<open>A parsed JSON value: a response body, or a column of type \<^verbatim>\<open>JSONB\<close>. The keys
  of an object are distinct, as parsing leaves them.\<close>

datatype json =
    JsonNull | JBool bool | JNumber real | JString string
  | JArray "json list" | JObject "(string \<times> json) list"

definition json_field :: "json \<Rightarrow> string \<Rightarrow> json option" where
  "json_field j k = (case j of JObject kvs \<Rightarrow> map_of kvs k | _ \<Rightarrow> None)"

definition json_number :: "json option \<Rightarrow> real option" where
  "json_number j = (case j of Some (JNumber x) \<Rightarrow> Some x | _ \<Rightarrow> None)"

text \<open>Truthiness of a value that may be \<^verbatim>\<open>undefined\<close> (\<open>None\<close>): \<^verbatim>\<open>null\<close>,
  \<^verbatim>\<open>false\<close>, zero and the empty string are falsy, every array and object is truthy.\<close>

fun truthy :: "json option \<Rightarrow> bool" where
  "truthy None = False"
| "truthy (Some JsonNull) = False"
| "truthy (Some (JBool b)) = b"
| "truthy (Some (JNumber x)) = (x \<noteq> 0)"
| "truthy (Some (JString s)) = (s \<noteq> [])"
| "truthy (Some (JArray xs)) = True"
| "truthy (Some (JObject kvs)) = True"

text \<open>\<^verbatim>\<open>a || b\<close>\<close>

definition js_or :: "json option \<Rightarrow> json option \<Rightarrow> json option" where
  "js_or a b = (if truthy a then a else b)"

fun join_commas :: "string list \<Rightarrow> string" where
  "join_commas [] = []"
| "join_commas [s] = s"
| "join_commas (s # t # rest) = s @ '','' @ join_commas (t # rest)"

text \<open>
  The conversion of a value to a string, as \<^verbatim>\<open>new Error(message)\<close> applies it. A string
  is itself, an object is \<^verbatim>\<open>[object Object]\<close>, and an array is the texts of its elements
  joined by commas, with nothing for a \<^verbatim>\<open>null\<close> element. The text of a number is given by
  the parameter \<open>fmt\<close>.
\<close>

fun js_to_string :: "(real \<Rightarrow> string) \<Rightarrow> json \<Rightarrow> string" where
  "js_to_string fmt JsonNull = ''null''"
| "js_to_string fmt (JBool b) = (if b then ''true'' else ''false'')"
| "js_to_string fmt (JNumber x) = fmt x"
| "js_to_string fmt (JString s) = s"
| "js_to_string fmt (JArray xs) =
     join_commas (map (\<lambda>x. if x = JsonNull then [] else js_to_string fmt x) xs)"
| "js_to_string fmt (JObject kvs) = ''[object Object]''"

text \<open>Decimal digits of a natural number, and with them the text of a whole number.\<close>

fun nat_text :: "nat \<Rightarrow> string" where
  "nat_text n =
     (if n < 10 then [char_of (48 + n)] else nat_text (n div 10) @ [char_of (48 + n mod 10)])"

definition whole_number_text :: "real \<Rightarrow> string" where
  "whole_number_text x = (if x < 0 then ''-'' else []) @ nat_text (nat \<lfloor>\<bar>x\<bar>\<rfloor>)"

section \<open>The error interceptor of the API client\<close>

text \<open>
  The error that the HTTP library hands to the interceptor: the response, if one came,
  with its status and its parsed body, the library's own message, and the stack of the
  error object. The body and its fields are any JSON values.
\<close>

record axios_response =
  status :: nat
  data :: "json option"

record axios_error =
  response :: "axios_response option"
  transport_message :: "string option"
  stack :: "string option"

text \<open>\<^verbatim>\<open>error.response?.data?.detail\<close> and \<^verbatim>\<open>error.response?.data?.message\<close>\<close>

definition body_detail :: "axios_error \<Rightarrow> json option" where
  "body_detail error = Option.bind (Option.bind (response error) data) (\<lambda>j. json_field j ''detail'')"

definition body_message :: "axios_error \<Rightarrow> json option" where
  "body_message error = Option.bind (Option.bind (response error) data) (\<lambda>j. json_field j ''message'')"

text \<open>The value of the chain of \<^verbatim>\<open>||\<close> that the interceptor passes to
  \<^verbatim>\<open>new Error\<close>, and the message of the error with which it rejects.\<close>

definition reject_value :: "axios_error \<Rightarrow> json option" where
  "reject_value error =
     js_or (js_or (js_or (body_detail error) (body_message error))
                  (map_option JString (transport_message error)))
           (Some (JString ''Something went wrong''))"

definition reject_message :: "(real \<Rightarrow> string) \<Rightarrow> axios_error \<Rightarrow> string" where
  "reject_message fmt error =
     (case reject_value error of None \<Rightarrow> [] | Some v \<Rightarrow> js_to_string fmt v)"

text \<open>
  What a call of the client gives for a response: the library fulfils the request for a
  status from 200 to 299, and the interceptor hands on the body; for any other status the
  library raises its error \<^verbatim>\<open>Request failed with status code N\<close> with the response in it,
  and the interceptor rejects.
\<close>

datatype outcome = Fulfilled "json option" | Rejected string

definition apiClient_response :: "(real \<Rightarrow> string) \<Rightarrow> string option \<Rightarrow> axios_response \<Rightarrow> outcome" where
  "apiClient_response fmt stk r =
     (if 200 \<le> status r \<and> status r < 300 then Fulfilled (data r)
      else Rejected (reject_message fmt
             \<lparr>response = Some r,
              transport_message = Some (''Request failed with status code '' @ nat_text (status r)),
              stack = stk\<rparr>))"

text \<open>A field is a string, \<^verbatim>\<open>null\<close> or not there.\<close>

definition textual :: "json option \<Rightarrow> bool" where
  "textual a = (case a of None \<Rightarrow> True | Some JsonNull \<Rightarrow> True | Some (JString s) \<Rightarrow> True | _ \<Rightarrow> False)"

text \<open>Sample errors: bodies with a \<^verbatim>\<open>detail\<close> string, with a \<^verbatim>\<open>message\<close> only, with
  an empty array and with a list of field errors as \<^verbatim>\<open>detail\<close>; no response at all.\<close>

definition error_with_body :: "nat \<Rightarrow> json \<Rightarrow> axios_error" where
  "error_with_body code b =
     \<lparr>response = Some \<lparr>status = code, data = Some b\<rparr>,
      transport_message = Some (''Request failed with status code '' @ nat_text code),
      stack = Some ''AxiosError: Request failed''\<rparr>"

definition validation_failure :: axios_error where
  "validation_failure = error_with_body 422 (JObject [(''detail'', JString ''koi_prad out of range'')])"

definition message_only_failure :: axios_error where
  "message_only_failure = error_with_body 500 (JObject [(''message'', JString ''Internal Server Error'')])"

definition empty_detail_failure :: axios_error where
  "empty_detail_failure = error_with_body 422 (JObject [(''detail'', JArray [])])"

definition field_errors_failure :: axios_error where
  "field_errors_failure =
     error_with_body 422
       (JObject [(''detail'',
          JArray [JObject [(''loc'', JArray [JString ''body'', JString ''features'', JString ''koi_prad'']),
                           (''msg'', JString ''value is not a valid float'')]])])"

definition network_failure :: axios_error where
  "network_failure = \<lparr>response = None, transport_message = Some ''Network Error'', stack = None\<rparr>"

definition silent_failure :: axios_error where
  "silent_failure = \<lparr>response = None, transport_message = None, stack = None\<rparr>"

section \<open>The regression chart\<close>








section \<open>The predictions table\<close>

text \<open>
  A row of \<^verbatim>\<open>predictions\<close>. The columns that are \<^verbatim>\<open>NOT NULL\<close> hold a value;
  \<^verbatim>\<open>created_at\<close> is a number of seconds, and a statement leaves it to its default or
  gives a time.
\<close>

record prediction_row =
  row_id :: int
  task_type :: string
  input_features :: json
  output_result :: json
  model_name :: string
  created_at :: int

text \<open>
  The values of an \<^verbatim>\<open>INSERT\<close>. \<open>None\<close> for \<open>v_id\<close> and \<open>v_created_at\<close> is a
  column left to its default (the next value of the sequence, the current time); \<open>None\<close> for
  another column is \<^verbatim>\<open>NULL\<close>.
\<close>

record insert_values =
  v_id :: "int option"
  v_task_type :: "string option"
  v_input_features :: "json option"
  v_output_result :: "json option"
  v_model_name :: "string option"
  v_created_at :: "int option"

datatype db_error =
    IntegerOutOfRange | SequenceExhausted | StringTooLong | NotNullViolation
  | CheckViolation | RlsViolation | UniqueViolation

text \<open>The table in insertion order, and the last value that the sequence of
  \<^verbatim>\<open>id SERIAL\<close> has given out.\<close>

record db =
  rows :: "prediction_row list"
  seq_last :: int

definition empty_db :: db where
  "empty_db = \<lparr>rows = [], seq_last = 0\<rparr>"

definition int4 :: "int \<Rightarrow> bool" where
  "int4 i = (- 2147483648 \<le> i \<and> i \<le> 2147483647)"

text \<open>\<^verbatim>\<open>VARCHAR(n)\<close>: a longer string is refused, unless only spaces are cut off.\<close>

definition varchar :: "nat \<Rightarrow> string \<Rightarrow> db_error + string" where
  "varchar n s =
     (if length s \<le> n then Inr s
      else if list_all (\<lambda>c. c = CHR '' '') (drop n s) then Inr (take n s)
      else Inl StringTooLong)"

text \<open>\<^verbatim>\<open>CHECK (task_type IN ('classification', 'regression'))\<close>\<close>

definition task_type_check :: "string \<Rightarrow> bool" where
  "task_type_check t = (t \<in> set [''classification'', ''regression''])"

text \<open>Row level security is enabled: a statement reaches a row only through a policy
  for its kind of statement. The four policies of the schema all have the expression
  \<^verbatim>\<open>true\<close>.\<close>

datatype sql_op = OpSelect | OpInsert | OpUpdate | OpDelete

record policy =
  policy_name :: string
  policy_for :: sql_op
  policy_expr :: "prediction_row \<Rightarrow> bool"

definition policies :: "policy list" where
  "policies =
    [\<lparr>policy_name = ''Allow public read access'', policy_for = OpSelect, policy_expr = (\<lambda>r. True)\<rparr>,
     \<lparr>policy_name = ''Allow insert access'', policy_for = OpInsert, policy_expr = (\<lambda>r. True)\<rparr>,
     \<lparr>policy_name = ''Allow update access'', policy_for = OpUpdate, policy_expr = (\<lambda>r. True)\<rparr>,
     \<lparr>policy_name = ''Allow delete access'', policy_for = OpDelete, policy_expr = (\<lambda>r. True)\<rparr>]"

definition permitted :: "sql_op \<Rightarrow> prediction_row \<Rightarrow> bool" where
  "permitted op r = list_ex (\<lambda>p. policy_for p = op \<and> policy_expr p r) policies"

text \<open>Statements on the table, with the conditions and the assignments they need here.\<close>

datatype where_clause = AllRows | IdEq int | TaskTypeEq string

fun matches :: "where_clause \<Rightarrow> prediction_row \<Rightarrow> bool" where
  "matches AllRows r = True"
| "matches (IdEq i) r = (row_id r = i)"
| "matches (TaskTypeEq t) r = (task_type r = t)"

datatype assignment =
    SetId int | SetTaskType string | SetInputFeatures json | SetOutputResult json
  | SetModelName string | SetCreatedAt int

datatype sql_cmd =
    Insert insert_values
  | Select where_clause
  | Update where_clause "assignment list"
  | Delete where_clause

text \<open>The sequence of a \<^verbatim>\<open>SERIAL\<close> column counts up to the largest 32-bit integer and
  does not cycle; a value given out is not taken back when the statement fails.\<close>

definition nextval :: "db \<Rightarrow> (db_error + int) \<times> db" where
  "nextval d =
     (if 2147483647 \<le> seq_last d then (Inl SequenceExhausted, d)
      else (Inr (seq_last d + 1), d\<lparr>seq_last := seq_last d + 1\<rparr>))"

text \<open>The row that an \<^verbatim>\<open>INSERT\<close> stores, or the constraint that refuses it.\<close>

definition build_row :: "int \<Rightarrow> int \<Rightarrow> insert_values \<Rightarrow> db_error + prediction_row" where
  "build_row now i v =
     (case (v_task_type v, v_input_features v, v_output_result v, v_model_name v) of
        (Some t, Some inp, Some out, Some m) \<Rightarrow>
          (case varchar 50 t of
             Inl e \<Rightarrow> Inl e
           | Inr t' \<Rightarrow>
               (case varchar 100 m of
                  Inl e \<Rightarrow> Inl e
                | Inr m' \<Rightarrow>
                    if \<not> task_type_check t' then Inl CheckViolation
                    else Inr \<lparr>row_id = i, task_type = t', input_features = inp,
                              output_result = out, model_name = m',
                              created_at = (case v_created_at v of None \<Rightarrow> now | Some c \<Rightarrow> c)\<rparr>))
      | _ \<Rightarrow> Inl NotNullViolation)"

text \<open>The primary key refuses an \<open>id\<close> that a row of the table has.\<close>

definition exec_insert :: "int \<Rightarrow> insert_values \<Rightarrow> db \<Rightarrow> (db_error + prediction_row list) \<times> db" where
  "exec_insert now v d =
     (case (case v_id v of
              None \<Rightarrow> nextval d
            | Some i \<Rightarrow> (if int4 i then Inr i else Inl IntegerOutOfRange, d)) of
        (Inl e, d1) \<Rightarrow> (Inl e, d1)
      | (Inr i, d1) \<Rightarrow>
          (case build_row now i v of
             Inl e \<Rightarrow> (Inl e, d1)
           | Inr r \<Rightarrow>
               if \<not> permitted OpInsert r then (Inl RlsViolation, d1)
               else if i \<in> set (map row_id (rows d1)) then (Inl UniqueViolation, d1)
               else (Inr [r], d1\<lparr>rows := rows d1 @ [r]\<rparr>)))"

text \<open>An \<^verbatim>\<open>UPDATE\<close> changes all rows it reaches or, when a constraint refuses one of
  the new rows, none.\<close>

fun assign :: "assignment \<Rightarrow> prediction_row \<Rightarrow> db_error + prediction_row" where
  "assign (SetId i) r = (if int4 i then Inr (r\<lparr>row_id := i\<rparr>) else Inl IntegerOutOfRange)"
| "assign (SetTaskType t) r =
     (case varchar 50 t of
        Inl e \<Rightarrow> Inl e
      | Inr t' \<Rightarrow> if task_type_check t' then Inr (r\<lparr>task_type := t'\<rparr>) else Inl CheckViolation)"
| "assign (SetInputFeatures j) r = Inr (r\<lparr>input_features := j\<rparr>)"
| "assign (SetOutputResult j) r = Inr (r\<lparr>output_result := j\<rparr>)"
| "assign (SetModelName m) r =
     (case varchar 100 m of Inl e \<Rightarrow> Inl e | Inr m' \<Rightarrow> Inr (r\<lparr>model_name := m'\<rparr>))"
| "assign (SetCreatedAt c) r = Inr (r\<lparr>created_at := c\<rparr>)"

fun assign_all :: "assignment list \<Rightarrow> prediction_row \<Rightarrow> db_error + prediction_row" where
  "assign_all [] r = Inr r"
| "assign_all (a # as) r = (case assign a r of Inl e \<Rightarrow> Inl e | Inr r' \<Rightarrow> assign_all as r')"

fun update_rows :: "where_clause \<Rightarrow> assignment list \<Rightarrow> prediction_row list \<Rightarrow> db_error + prediction_row list" where
  "update_rows w as [] = Inr []"
| "update_rows w as (r # rs) =
     (case (if matches w r \<and> permitted OpUpdate r then assign_all as r else Inr r) of
        Inl e \<Rightarrow> Inl e
      | Inr r' \<Rightarrow> (case update_rows w as rs of Inl e \<Rightarrow> Inl e | Inr rs' \<Rightarrow> Inr (r' # rs')))"

fun exec_sql :: "int \<Rightarrow> sql_cmd \<Rightarrow> db \<Rightarrow> (db_error + prediction_row list) \<times> db" where
  "exec_sql now (Insert v) d = exec_insert now v d"
| "exec_sql now (Select w) d =
     (Inr (filter (\<lambda>r. matches w r \<and> permitted OpSelect r) (rows d)), d)"
| "exec_sql now (Update w as) d =
     (case update_rows w as (rows d) of
        Inl e \<Rightarrow> (Inl e, d)
      | Inr rs \<Rightarrow>
          if distinct (map row_id rs)
          then (Inr (filter (\<lambda>r. matches w r \<and> permitted OpUpdate r) (rows d)), d\<lparr>rows := rs\<rparr>)
          else (Inl UniqueViolation, d))"
| "exec_sql now (Delete w) d =
     (Inr (filter (\<lambda>r. matches w r \<and> permitted OpDelete r) (rows d)),
      d\<lparr>rows := filter (\<lambda>r. \<not> (matches w r \<and> permitted OpDelete r)) (rows d)\<rparr>)"

text \<open>A script: statements, each with the time at which it runs.\<close>

definition run_sql :: "(int \<times> sql_cmd) list \<Rightarrow> db \<Rightarrow> db" where
  "run_sql stmts d = foldl (\<lambda>s (now, c). snd (exec_sql now c s)) d stmts"

subsection \<open>The seed data\<close>

definition sample_features_1 :: json where
  "sample_features_1 = JObject
     [(''koi_prad'', JNumber 2.5), (''koi_depth'', JNumber 150), (''koi_period'', JNumber 45.3),
      (''koi_srad'', JNumber 1.2), (''koi_steff'', JNumber 5800), (''koi_smass'', JNumber 1.1),
      (''koi_slogg'', JNumber 4.3), (''koi_lum'', JNumber 0.1), (''koi_impact'', JNumber 0.6),
      (''koi_duration'', JNumber 3.5), (''koi_dor'', JNumber 22.5), (''koi_model_snr'', JNumber 25.0),
      (''koi_kepmag'', JNumber 14.2), (''koi_score'', JNumber 0.85)]"

definition sample_features_2 :: json where
  "sample_features_2 = JObject
     [(''koi_prad'', JNumber 1.2), (''koi_depth'', JNumber 50), (''koi_period'', JNumber 12.5),
      (''koi_srad'', JNumber 0.9), (''koi_steff'', JNumber 5500), (''koi_smass'', JNumber 0.95),
      (''koi_slogg'', JNumber 4.5), (''koi_lum'', JNumber (-0.2)), (''koi_impact'', JNumber 0.3),
      (''koi_duration'', JNumber 2.8), (''koi_dor'', JNumber 15.0), (''koi_model_snr'', JNumber 18.5),
      (''koi_kepmag'', JNumber 13.8), (''koi_score'', JNumber 0.65)]"

definition seed_data :: "int \<Rightarrow> (int \<times> sql_cmd) list" where
  "seed_data now =
    [(now, Insert \<lparr>v_id = None, v_task_type = Some ''classification'',
         v_input_features = Some sample_features_1,
         v_output_result = Some (JObject
           [(''prediction'', JString ''CONFIRMED''), (''confidence'', JNumber 0.92),
            (''probabilities'', JObject [(''CONFIRMED'', JNumber 0.92), (''FALSE POSITIVE'', JNumber 0.08)])]),
         v_model_name = Some ''classification_pipeline_v1'',
         v_created_at = Some (now - 86400)\<rparr>),
     (now, Insert \<lparr>v_id = None, v_task_type = Some ''regression'',
         v_input_features = Some sample_features_1,
         v_output_result = Some (JObject
           [(''prediction'', JNumber 2.47),
            (''confidence_interval'', JObject [(''lower'', JNumber 2.15), (''upper'', JNumber 2.79)]),
            (''unit'', JString ''Earth radii'')]),
         v_model_name = Some ''regression_pipeline_v1'',
         v_created_at = Some (now - 2 * 86400)\<rparr>),
     (now, Insert \<lparr>v_id = None, v_task_type = Some ''classification'',
         v_input_features = Some sample_features_2,
         v_output_result = Some (JObject
           [(''prediction'', JString ''FALSE POSITIVE''), (''confidence'', JNumber 0.78),
            (''probabilities'', JObject [(''CONFIRMED'', JNumber 0.22), (''FALSE POSITIVE'', JNumber 0.78)])]),
         v_model_name = Some ''classification_pipeline_v1'',
         v_created_at = Some (now - 3 * 86400)\<rparr>)]"

definition seeded_db :: "int \<Rightarrow> db" where
  "seeded_db now = run_sql (seed_data now) empty_db"


text \<open>Statements that leave every \<open>id\<close> to the sequence, and statements that add a row or
  only read.\<close>

fun sets_id :: "assignment \<Rightarrow> bool" where
  "sets_id (SetId i) = True"
| "sets_id _ = False"

fun store_assigned :: "sql_cmd \<Rightarrow> bool" where
  "store_assigned (Insert v) = (v_id v = None)"
| "store_assigned (Update w as) = list_all (\<lambda>a. \<not> sets_id a) as"
| "store_assigned (Select w) = True"
| "store_assigned (Delete w) = True"

fun appends_or_reads :: "sql_cmd \<Rightarrow> bool" where
  "appends_or_reads (Insert v) = True"
| "appends_or_reads (Select w) = True"
| "appends_or_reads (Update w as) = False"
| "appends_or_reads (Delete w) = False"

definition checked :: "db \<Rightarrow> bool" where
  "checked d = list_all (\<lambda>r. task_type_check (task_type r)) (rows d)"

definition ids_increasing :: "db \<Rightarrow> bool" where
  "ids_increasing d =
     (sorted_wrt (<) (map row_id (rows d)) \<and> list_all (\<lambda>r. row_id r \<le> seq_last d) (rows d))"

definition unknown_task_insert :: insert_values where
  "unknown_task_insert =
     \<lparr>v_id = None, v_task_type = Some ''clustering'', v_input_features = Some sample_features_1,
      v_output_result = Some (JObject []), v_model_name = Some ''clustering_pipeline_v1'',
      v_created_at = None\<rparr>"

subsection \<open>The operations of the core on the store\<close>

text \<open>Modelled from the spec: the record that the pipeline hands to the History Store,
  which is not in the sources; it has no id.\<close>

record history_input =
  h_task_type :: string
  h_input_features :: json
  h_output_result :: json
  h_model_name :: string

text \<open>Modelled from the spec: \<^verbatim>\<open>append(record_without_id) -> id\<close>, an insert that leaves
  the id and the time to the store and answers with the id of the stored row.\<close>

definition store_append :: "int \<Rightarrow> history_input \<Rightarrow> db \<Rightarrow> (db_error + int list) \<times> db" where
  "store_append now h d =
     (case exec_sql now
             (Insert \<lparr>v_id = None, v_task_type = Some (h_task_type h),
                      v_input_features = Some (h_input_features h),
                      v_output_result = Some (h_output_result h),
                      v_model_name = Some (h_model_name h), v_created_at = None\<rparr>) d of
        (res, d') \<Rightarrow> (map_sum id (map row_id) res, d'))"

text \<open>Modelled from the spec: the order of a listing, by \<^verbatim>\<open>created_at\<close> descending and
  among equal times by id descending.\<close>

definition most_recent_first :: "prediction_row list \<Rightarrow> prediction_row list" where
  "most_recent_first rs = sort_key (\<lambda>r. - created_at r) (sort_key (\<lambda>r. - row_id r) rs)"

text \<open>Modelled from the spec: \<^verbatim>\<open>list(task_type_filter?, limit, offset)\<close>, a select whose
  limit is clamped to the maximum of the server and whose offset may lie beyond the records.\<close>

definition store_list :: "nat \<Rightarrow> int \<Rightarrow> string option \<Rightarrow> nat \<Rightarrow> nat \<Rightarrow> db \<Rightarrow> prediction_row list \<times> db" where
  "store_list max_limit now task_filter limit offset d =
     (case exec_sql now (Select (case task_filter of None \<Rightarrow> AllRows | Some t \<Rightarrow> TaskTypeEq t)) d of
        (Inl e, d') \<Rightarrow> ([], d')
      | (Inr rs, d') \<Rightarrow> (take (min limit max_limit) (drop offset (most_recent_first rs)), d'))"

text \<open>Modelled from the spec: the core reaches the store through these two operations and
  no other.\<close>

datatype core_op = Append int history_input | ListRecords int "string option" nat nat

fun core_step :: "nat \<Rightarrow> core_op \<Rightarrow> db \<Rightarrow> db" where
  "core_step max_limit (Append now h) d = snd (store_append now h d)"
| "core_step max_limit (ListRecords now task_filter limit offset) d =
     snd (store_list max_limit now task_filter limit offset d)"

definition run_core :: "nat \<Rightarrow> core_op list \<Rightarrow> db \<Rightarrow> db" where
  "run_core max_limit ops d = foldl (\<lambda>s op. core_step max_limit op s) d ops"

definition sample_record :: history_input where
  "sample_record =
     \<lparr>h_task_type = ''regression'', h_input_features = sample_features_2,
      h_output_result = JObject [(''prediction'', JNumber 1.1)],
      h_model_name = ''regression_pipeline_v1''\<rparr>"

section \<open>Classification results\<close>

datatype label = CONFIRMED | FALSE_POSITIVE

record classification_result =
  prediction :: label
  confidence :: real
  probabilities :: "label \<Rightarrow> real"

text \<open>Modelled from the spec: the error of the Result Shaper, which is not in the sources.\<close>

datatype shaping_error = DegenerateScores

text \<open>Modelled from the spec: the label is the class of greatest probability, and of two
  equal ones the first in alphabetical order.\<close>

definition argmax_label :: "(label \<Rightarrow> real) \<Rightarrow> label" where
  "argmax_label probs = (if probs FALSE_POSITIVE \<le> probs CONFIRMED then CONFIRMED else FALSE_POSITIVE)"

text \<open>Modelled from the spec: the result carries the label, the probability of the label as
  its confidence, and the probabilities.\<close>

definition emit :: "(label \<Rightarrow> real) \<Rightarrow> classification_result" where
  "emit probs = \<lparr>prediction = argmax_label probs, confidence = probs (argmax_label probs),
                 probabilities = probs\<rparr>"

text \<open>Modelled from the spec: the Result Shaper for classification, which is not in the
  sources. Scores that do not sum to 1 within \<^verbatim>\<open>1e-6\<close> are divided by their sum; a sum
  within \<open>eps\<close> of zero is refused (the spec leaves this threshold open).\<close>

definition shape_classification :: "real \<Rightarrow> (label \<Rightarrow> real) \<Rightarrow> shaping_error + classification_result" where
  "shape_classification eps raw =
     (let total = raw CONFIRMED + raw FALSE_POSITIVE
      in if \<bar>total - 1\<bar> \<le> 1 / 1000000 then Inr (emit raw)
         else if \<bar>total\<bar> \<le> eps then Inl DegenerateScores
         else Inr (emit (\<lambda>l. raw l / total)))"

text \<open>The property of a result: the probabilities sum to 1 within the tolerance, the
  confidence is the probability of the label, and no class has a greater probability.\<close>

definition well_shaped :: "classification_result \<Rightarrow> bool" where
  "well_shaped r =
     (\<bar>probabilities r CONFIRMED + probabilities r FALSE_POSITIVE - 1\<bar> \<le> 1 / 1000000
      \<and> confidence r = probabilities r (prediction r)
      \<and> probabilities r CONFIRMED \<le> probabilities r (prediction r)
      \<and> probabilities r FALSE_POSITIVE \<le> probabilities r (prediction r))"

text \<open>Reading a stored \<^verbatim>\<open>output_result\<close> as a classification result.\<close>

definition decode_label :: "json option \<Rightarrow> label option" where
  "decode_label j =
     (case j of
        Some (JString s) \<Rightarrow>
          if s = ''CONFIRMED'' then Some CONFIRMED
          else if s = ''FALSE POSITIVE'' then Some FALSE_POSITIVE else None
      | _ \<Rightarrow> None)"

definition decode_classification :: "json \<Rightarrow> classification_result option" where
  "decode_classification out =
     (case (decode_label (json_field out ''prediction''),
            json_number (json_field out ''confidence''),
            json_field out ''probabilities'') of
        (Some l, Some c, Some ps) \<Rightarrow>
          (case (json_number (json_field ps ''CONFIRMED''),
                 json_number (json_field ps ''FALSE POSITIVE'')) of
             (Some pc, Some pf) \<Rightarrow>
               Some \<lparr>prediction = l, confidence = c,
                     probabilities = (\<lambda>x. case x of CONFIRMED \<Rightarrow> pc | FALSE_POSITIVE \<Rightarrow> pf)\<rparr>
           | _ \<Rightarrow> None)
      | _ \<Rightarrow> None)"

definition persisted_ok :: "prediction_row \<Rightarrow> bool" where
  "persisted_ok row =
     (case decode_classification (output_result row) of None \<Rightarrow> False | Some r \<Rightarrow> well_shaped r)"

definition sample_scores :: "label \<Rightarrow> real" where
  "sample_scores l = (case l of CONFIRMED \<Rightarrow> 3 | FALSE_POSITIVE \<Rightarrow> 1)"

section \<open>Regression results\<close>

text \<open>Modelled from the spec: the regression variant of a prediction result.\<close>

record regression_result =
  point_estimate :: real
  interval_lower :: real
  interval_upper :: real
  result_unit :: string

text \<open>Modelled from the spec: the Result Shaper for regression, which is not in the
  sources. The interval is the point estimate minus and plus 1.96 standard errors, with the
  lower bound clipped at zero.\<close>

definition shape_regression :: "real \<Rightarrow> real \<Rightarrow> regression_result" where
  "shape_regression p se =
     \<lparr>point_estimate = p, interval_lower = max 0 (p - 1.96 * se), interval_upper = p + 1.96 * se,
      result_unit = ''Earth radii''\<rparr>"


text \<open>The property of a result: the point estimate lies between the bounds, and the lower
  bound is not negative.\<close>

definition interval_ok :: "regression_result \<Rightarrow> bool" where
  "interval_ok r =
     (interval_lower r \<le> point_estimate r \<and> point_estimate r \<le> interval_upper r
      \<and> 0 \<le> interval_lower r)"




section \<open>Facts about objects and the validation loop\<close>

lemmas form_eval = validateAllFeatures_def initial_form_def FEATURE_CONFIG_def mk_feature_def
  validateFeature_def obj_get_def is_empty_value_def check_min_def check_max_def handleChange_def
  truthy_error_def parse_string_def parse_unsigned_def is_ws_def is_digit_def dec_def scale10_def
  run_events_def

lemma distinct_keys: "distinct (map key FEATURE_CONFIG)"
  by (simp add: FEATURE_CONFIG_def mk_feature_def)

lemma map_of_obj_set: "map_of (obj_set k v obj) = (map_of obj)(k \<mapsto> v)"
  by (induction obj) auto

lemma obj_get_other: "k' \<noteq> k \<Longrightarrow> obj_get (obj_set k v obj) k' = obj_get obj k'"
  by (simp add: obj_get_def map_of_obj_set)

lemma obj_set_key_set: "fst ` set (obj_set k v obj) = insert k (fst ` set obj)"
  by (simp add: dom_map_of_conv_image_fst [symmetric] map_of_obj_set)


lemma obj_set_fresh: "k \<notin> set (map fst obj) \<Longrightarrow> obj_set k v obj = obj @ [(k, v)]"
  by (induction obj) auto

lemma validate_loop_append:
  "distinct (map key cs) \<Longrightarrow> set (map key cs) \<inter> set (map fst errs) = {} \<Longrightarrow>
   validate_loop fs config cs errs =
     errs @ List.map_filter
       (\<lambda>f. map_option (Pair (key f)) (validateFeature (key f) (obj_get fs (key f)) config)) cs"
proof (induction cs arbitrary: errs)
  case Nil
  then show ?case by simp
next
  case (Cons f cs)
  show ?case
  proof (cases "validateFeature (key f) (obj_get fs (key f)) config")
    case None
    with Cons show ?thesis by simp
  next
    case (Some e)
    from Cons.prems have fresh: "key f \<notin> set (map fst errs)" by auto
    have "set (map key cs) \<inter> set (map fst (errs @ [(key f, e)])) = {}"
      using Cons.prems by auto
    with Cons.IH [of "errs @ [(key f, e)]"] Cons.prems(1) Some fresh
    show ?thesis by (simp add: obj_set_fresh)
  qed
qed

lemma keys_map_filter:
  "map fst (List.map_filter (\<lambda>f. map_option (Pair (key f)) (g f)) cs)
     = map key (filter (\<lambda>f. g f \<noteq> None) cs)"
  by (induction cs) (auto split: option.splits)

lemma validateAllFeatures_keys:
  "distinct (map key config) \<Longrightarrow>
   obj_keys (validateAllFeatures fs config) = map key (filter (failing fs config) config)"
  unfolding validateAllFeatures_def obj_keys_def failing_def
  by (simp add: validate_loop_append keys_map_filter)

lemma validate_loop_extra_key:
  "k \<notin> set (map key cs) \<Longrightarrow>
   validate_loop (obj_set k v fs) config cs errs = validate_loop fs config cs errs"
  by (induction cs arbitrary: errs) (auto simp: obj_get_other split: option.splits)

lemma validate_loop_keys_subset:
  "set (map fst (validate_loop fs config cs errs)) \<subseteq> set (map fst errs) \<union> set (map key cs)"
proof (induction cs arbitrary: errs)
  case Nil
  show ?case by simp
next
  case (Cons f cs)
  show ?case
  proof (cases "validateFeature (key f) (obj_get fs (key f)) config")
    case None
    with Cons.IH [of errs] show ?thesis by auto
  next
    case (Some e)
    with Cons.IH [of "obj_set (key f) e errs"] show ?thesis
      by (auto simp: obj_set_key_set)
  qed
qed

lemma validateFeature_unknown:
  assumes "k \<notin> set (map key config)"
  shows "validateFeature k v config = Some (UnknownFeature k)"
proof -
  from assms have "find (\<lambda>f. key f = k) config = None"
    by (auto simp: find_None_iff)
  then show ?thesis by (simp add: validateFeature_def)
qed




subsection \<open>The keys of the form state\<close>







subsection \<open>The two sample states\<close>

lemma typed_form_valid: "validateAllFeatures (features typed_form) FEATURE_CONFIG = []"
  by (simp add: typed_form_def form_eval)


lemma initial_form_valid: "validateAllFeatures (features initial_form) FEATURE_CONFIG = []"
  by (simp add: form_eval)

lemma out_of_range_form_failing:
  "failing (features out_of_range_form) FEATURE_CONFIG
     (mk_feature ''koi_prad'' ''Planetary Radius'' 0.1 30 2.0)"
  by (simp add: failing_def out_of_range_form_def form_eval)

lemma out_of_range_form_errors:
  "validateAllFeatures (features out_of_range_form) FEATURE_CONFIG
     = [(''koi_prad'', AtMost ''Planetary Radius'' 30)]"
  by (simp add: out_of_range_form_def form_eval)

section \<open>The input form\<close>

text \<open>
  C1. When validation of the submitted input map produces at least one field error (some
  field of the schema fails its check, so the error map is not empty), the submit handler
  makes no call of \<^verbatim>\<open>onSubmit\<close> and the page sends no prediction request; it calls
  \<^verbatim>\<open>onSubmit\<close> only when the error map is empty, and in both cases it stores the full
  error map in the form state.
\<close>

theorem C1_rejected_submit_sends_nothing:
  "(validateAllFeatures (features st) FEATURE_CONFIG \<noteq> [] \<longrightarrow>
      snd (handleSubmit st) = None \<and> snd (submit_form taskType st) = [])
   \<and> (list_ex (failing (features st) FEATURE_CONFIG) FEATURE_CONFIG \<longrightarrow>
        validateAllFeatures (features st) FEATURE_CONFIG \<noteq> [])
   \<and> (snd (handleSubmit st) \<noteq> None \<longrightarrow> validateAllFeatures (features st) FEATURE_CONFIG = [])
   \<and> errors (fst (handleSubmit st)) =
        map (\<lambda>(k, e). (k, Some e)) (validateAllFeatures (features st) FEATURE_CONFIG)"
proof -
  let ?errs = "validateAllFeatures (features st) FEATURE_CONFIG"
  have a: "?errs \<noteq> [] \<longrightarrow> snd (handleSubmit st) = None \<and> snd (submit_form taskType st) = []"
    by (simp add: handleSubmit_def submit_form_def obj_keys_def Let_def)
  have b: "?errs \<noteq> []" if f: "list_ex (failing (features st) FEATURE_CONFIG) FEATURE_CONFIG"
  proof
    assume "?errs = []"
    then have "obj_keys ?errs = []" by (simp add: obj_keys_def)
    then have "filter (failing (features st) FEATURE_CONFIG) FEATURE_CONFIG = []"
      by (simp add: validateAllFeatures_keys [OF distinct_keys])
    with f show False by (simp add: filter_empty_conv list_ex_iff)
  qed
  have c: "snd (handleSubmit st) \<noteq> None \<longrightarrow> ?errs = []"
    by (simp add: handleSubmit_def obj_keys_def Let_def)
  have d: "errors (fst (handleSubmit st)) = map (\<lambda>(k, e). (k, Some e)) ?errs"
    by (simp add: handleSubmit_def Let_def)
  from a b c d show ?thesis by blast
qed

theorem C1_witness:
  "list_ex (failing (features out_of_range_form) FEATURE_CONFIG) FEATURE_CONFIG
   \<and> validateAllFeatures (features out_of_range_form) FEATURE_CONFIG
       = [(''koi_prad'', AtMost ''Planetary Radius'' 30)]
   \<and> snd (handleSubmit out_of_range_form) = None
   \<and> snd (submit_form Classification out_of_range_form) = []
   \<and> errors (fst (handleSubmit out_of_range_form))
       = [(''koi_prad'', Some (AtMost ''Planetary Radius'' 30))]
   \<and> snd (handleSubmit typed_form) \<noteq> None
   \<and> validateAllFeatures (features typed_form) FEATURE_CONFIG = []"
proof -
  have f: "list_ex (failing (features out_of_range_form) FEATURE_CONFIG) FEATURE_CONFIG"
    using out_of_range_form_failing by (simp add: FEATURE_CONFIG_def mk_feature_def)
  have s: "snd (handleSubmit typed_form) \<noteq> None"
    using typed_form_valid by (simp add: handleSubmit_def Let_def obj_keys_def)
  from C1_rejected_submit_sends_nothing [of out_of_range_form Classification]
    out_of_range_form_errors
  have r: "snd (handleSubmit out_of_range_form) = None
      \<and> snd (submit_form Classification out_of_range_form) = []
      \<and> errors (fst (handleSubmit out_of_range_form))
          = [(''koi_prad'', Some (AtMost ''Planetary Radius'' 30))]"
    by simp
  from C1_rejected_submit_sends_nothing [of typed_form Classification] s
  have v: "validateAllFeatures (features typed_form) FEATURE_CONFIG = []" by blast
  from f out_of_range_form_errors r s v show ?thesis by blast
qed




text \<open>
  C5, as the claim states it, fails: the map that the form submits by default has the key
  \<^verbatim>\<open>koi_qof\<close>, which the documented feature set does not list; validation against the
  documented set and against the form's own schema records no error, and the request is
  sent with the key in it.
\<close>

theorem C5_counterexample:
  "''koi_qof'' \<notin> set (map key documented_features)
   \<and> map_of (features initial_form) ''koi_qof'' = Some (JNum 0.9)
   \<and> validateAllFeatures (features initial_form) documented_features = []
   \<and> validateAllFeatures (features initial_form) FEATURE_CONFIG = []
   \<and> snd (submit_form Classification initial_form) = [predictClassification (features initial_form)]"
proof -
  have b: "validateAllFeatures (features initial_form) documented_features = []"
    by (simp add: documented_features_def form_eval)
  have c: "map_of (features initial_form) ''koi_qof'' = Some (JNum 0.9)"
    by (simp add: initial_form_def FEATURE_CONFIG_def mk_feature_def)
  have d: "''koi_qof'' \<notin> set (map key documented_features)"
    by (simp add: documented_features_def FEATURE_CONFIG_def mk_feature_def)
  from initial_form_valid
  have e: "snd (submit_form Classification initial_form) = [predictClassification (features initial_form)]"
    by (simp add: submit_form_def handleSubmit_def Let_def obj_keys_def home_handleSubmit_def)
  from initial_form_valid b c d e show ?thesis by blast
qed

text \<open>
  C5, amended. \<^verbatim>\<open>validateAllFeatures\<close> examines the keys that the schema declares and no
  others: a key of the input map that the schema does not declare changes nothing in the
  error map and gets no entry there, so a map that is otherwise valid is submitted with the
  key in it. Only \<^verbatim>\<open>validateFeature\<close>, called for an undeclared key, answers
  \<^verbatim>\<open>Unknown feature: <key>\<close>. The key \<^verbatim>\<open>koi_qof\<close> is declared by the schema of the form.
\<close>

theorem C5_undeclared_keys_are_not_examined:
  assumes "k \<notin> set (map key config)"
  shows "validateAllFeatures (obj_set k v fs) config = validateAllFeatures fs config
    \<and> k \<notin> set (obj_keys (validateAllFeatures (obj_set k v fs) config))
    \<and> validateFeature k v config = Some (UnknownFeature k)
    \<and> error_message show (UnknownFeature k) = ''Unknown feature: '' @ k
    \<and> (config = FEATURE_CONFIG \<and> validateAllFeatures fs FEATURE_CONFIG = [] \<longrightarrow>
         snd (handleSubmit (st\<lparr>features := obj_set k v fs\<rparr>)) = Some (obj_set k v fs))
    \<and> ''koi_qof'' \<in> set (map key FEATURE_CONFIG)"
proof -
  have a: "validateAllFeatures (obj_set k v fs) config = validateAllFeatures fs config"
    unfolding validateAllFeatures_def using assms by (rule validate_loop_extra_key)
  have "set (obj_keys (validateAllFeatures (obj_set k v fs) config)) \<subseteq> set (map key config)"
    unfolding validateAllFeatures_def obj_keys_def
    using validate_loop_keys_subset [of "obj_set k v fs" config config "[]"] by simp
  with assms have b: "k \<notin> set (obj_keys (validateAllFeatures (obj_set k v fs) config))" by blast
  have c: "validateFeature k v config = Some (UnknownFeature k)"
    using assms by (rule validateFeature_unknown)
  have d: "config = FEATURE_CONFIG \<and> validateAllFeatures fs FEATURE_CONFIG = [] \<longrightarrow>
         snd (handleSubmit (st\<lparr>features := obj_set k v fs\<rparr>)) = Some (obj_set k v fs)"
    using a by (auto simp: handleSubmit_def Let_def obj_keys_def)
  have e: "''koi_qof'' \<in> set (map key FEATURE_CONFIG)"
    by (simp add: FEATURE_CONFIG_def mk_feature_def)
  from a b c d e show ?thesis by simp
qed

theorem C5_witness:
  "''koi_extra'' \<notin> set (map key FEATURE_CONFIG)
   \<and> validateAllFeatures (obj_set ''koi_extra'' (JStr ''abc'') (features initial_form)) FEATURE_CONFIG = []
   \<and> validateFeature ''koi_extra'' (JStr ''abc'') FEATURE_CONFIG = Some (UnknownFeature ''koi_extra'')
   \<and> snd (handleSubmit (initial_form\<lparr>features := obj_set ''koi_extra'' (JStr ''abc'') (features initial_form)\<rparr>))
       = Some (obj_set ''koi_extra'' (JStr ''abc'') (features initial_form))"
proof -
  have k: "''koi_extra'' \<notin> set (map key FEATURE_CONFIG)"
    by (simp add: FEATURE_CONFIG_def mk_feature_def)
  from C5_undeclared_keys_are_not_examined
         [OF k, where v = "JStr ''abc''" and fs = "features initial_form" and st = initial_form]
       k initial_form_valid
  show ?thesis by simp
qed

text \<open>
  C9. Every entry of the feature schema of the form has its minimum at most its maximum,
  and no two entries have the same key.
\<close>

theorem C9_schema_bounds_and_unique_keys:
  "list_all (\<lambda>f. case (min_val f, max_val f) of
                    (Some lo, Some hi) \<Rightarrow> lo \<le> hi | _ \<Rightarrow> False) FEATURE_CONFIG
   \<and> distinct (map key FEATURE_CONFIG)"
  by (simp add: FEATURE_CONFIG_def mk_feature_def)

section \<open>The error interceptor\<close>

lemmas interceptor_eval = reject_message_def reject_value_def js_or_def body_detail_def
  body_message_def json_field_def error_with_body_def

lemma truthy_textual:
  "textual a \<Longrightarrow> truthy a \<Longrightarrow> \<exists>s. a = Some (JString s) \<and> s \<noteq> []"
  by (cases a rule: truthy.cases) (simp_all add: textual_def)

lemma reject_value_cases:
  "reject_value e =
     (if truthy (body_detail e) then body_detail e
      else if truthy (body_message e) then body_message e
      else if truthy (map_option JString (transport_message e)) then map_option JString (transport_message e)
      else Some (JString ''Something went wrong''))"
  by (simp add: reject_value_def js_or_def)

lemma truthy_transport: "truthy (map_option JString m) = (\<exists>s. m = Some s \<and> s \<noteq> [])"
  by (cases m) simp_all

text \<open>
  C8, as the claim states it, fails: for a response whose \<^verbatim>\<open>detail\<close> is an empty array
  the interceptor rejects with the empty message, and for a \<^verbatim>\<open>detail\<close> that is a list of
  field errors it rejects with \<^verbatim>\<open>[object Object]\<close>, which is not the detail.
\<close>

theorem C8_counterexample:
  "truthy (body_detail empty_detail_failure)
   \<and> body_detail empty_detail_failure = Some (JArray [])
   \<and> reject_message whole_number_text empty_detail_failure = []
   \<and> truthy (body_detail field_errors_failure)
   \<and> reject_message whole_number_text field_errors_failure = ''[object Object]''"
  by (simp add: interceptor_eval empty_detail_failure_def field_errors_failure_def)

text \<open>
  C8, amended. The message of the rejection is the string conversion of the first truthy
  value among the \<^verbatim>\<open>detail\<close> of the response body, the \<^verbatim>\<open>message\<close> of the body and the
  message of the transport error, and else \<^verbatim>\<open>Something went wrong\<close>. A value that is a
  string which is not empty is the message as it is; so for every response with a status
  outside 200 to 299 and a body \<^verbatim>\<open>{"detail": "<message>"}\<close> the client rejects with that
  message, and when \<^verbatim>\<open>detail\<close> and \<^verbatim>\<open>message\<close> are strings or missing the message is
  never empty. A \<^verbatim>\<open>detail\<close> that is an object gives \<^verbatim>\<open>[object Object]\<close>, and one that is
  the empty array gives the empty message. The message does not depend on the stack of the
  error.
\<close>

theorem C8_interceptor_message:
  "(body_detail e = Some (JString s) \<and> s \<noteq> [] \<longrightarrow> reject_message fmt e = s)
   \<and> (\<not> truthy (body_detail e) \<and> body_message e = Some (JString s) \<and> s \<noteq> [] \<longrightarrow>
        reject_message fmt e = s)
   \<and> (\<not> truthy (body_detail e) \<and> \<not> truthy (body_message e) \<and> transport_message e = Some s \<and> s \<noteq> [] \<longrightarrow>
        reject_message fmt e = s)
   \<and> (\<not> truthy (body_detail e) \<and> \<not> truthy (body_message e)
        \<and> (transport_message e = None \<or> transport_message e = Some []) \<longrightarrow>
        reject_message fmt e = ''Something went wrong'')
   \<and> (textual (body_detail e) \<and> textual (body_message e) \<longrightarrow> reject_message fmt e \<noteq> [])
   \<and> (body_detail e = Some (JObject kvs) \<longrightarrow> reject_message fmt e = ''[object Object]'')
   \<and> (body_detail e = Some (JArray []) \<longrightarrow> reject_message fmt e = [])
   \<and> reject_message fmt (e\<lparr>stack := stk\<rparr>) = reject_message fmt e
   \<and> (\<not> (200 \<le> status r \<and> status r < 300) \<and> data r = Some (JObject [(''detail'', JString s)]) \<and> s \<noteq> [] \<longrightarrow>
        apiClient_response fmt stk r = Rejected s)
   \<and> (truthy (body_detail e) \<longrightarrow>
        map_option (js_to_string fmt) (body_detail e) = Some (reject_message fmt e))
   \<and> (\<not> truthy (body_detail e) \<and> truthy (body_message e) \<longrightarrow>
        map_option (js_to_string fmt) (body_message e) = Some (reject_message fmt e))"
proof -
  have a: "reject_message fmt e = s" if "body_detail e = Some (JString s)" "s \<noteq> []"
    using that by (simp add: reject_message_def reject_value_cases)
  have b: "reject_message fmt e = s"
    if "\<not> truthy (body_detail e)" "body_message e = Some (JString s)" "s \<noteq> []"
    using that by (simp add: reject_message_def reject_value_cases)
  have c: "reject_message fmt e = s"
    if "\<not> truthy (body_detail e)" "\<not> truthy (body_message e)" "transport_message e = Some s" "s \<noteq> []"
    using that by (simp add: reject_message_def reject_value_cases)
  have d: "reject_message fmt e = ''Something went wrong''"
    if "\<not> truthy (body_detail e)" "\<not> truthy (body_message e)"
       "transport_message e = None \<or> transport_message e = Some []"
    using that by (auto simp: reject_message_def reject_value_cases)
  have f: "reject_message fmt e \<noteq> []" if td: "textual (body_detail e)" and tm: "textual (body_message e)"
  proof (cases "truthy (body_detail e)")
    case True
    from truthy_textual [OF td True]
    obtain t where "body_detail e = Some (JString t)" and "t \<noteq> []" by blast
    then show ?thesis by (simp add: reject_message_def reject_value_cases)
  next
    case nd: False
    show ?thesis
    proof (cases "truthy (body_message e)")
      case True
      from truthy_textual [OF tm True]
      obtain t where "body_message e = Some (JString t)" and "t \<noteq> []" by blast
      with nd show ?thesis by (simp add: reject_message_def reject_value_cases)
    next
      case False
      with nd show ?thesis
        by (cases "transport_message e") (auto simp: reject_message_def reject_value_cases)
    qed
  qed
  have g: "reject_message fmt e = ''[object Object]''" if "body_detail e = Some (JObject kvs)"
    using that by (simp add: reject_message_def reject_value_cases)
  have h: "reject_message fmt e = []" if "body_detail e = Some (JArray [])"
    using that by (simp add: reject_message_def reject_value_cases)
  have i: "reject_message fmt (e\<lparr>stack := stk\<rparr>) = reject_message fmt e"
    by (simp add: reject_message_def reject_value_def body_detail_def body_message_def)
  have j: "apiClient_response fmt stk r = Rejected s"
    if "\<not> (200 \<le> status r \<and> status r < 300)" "data r = Some (JObject [(''detail'', JString s)])" "s \<noteq> []"
    using that
    by (simp add: apiClient_response_def reject_message_def reject_value_def js_or_def body_detail_def json_field_def)
  have k: "map_option (js_to_string fmt) (body_detail e) = Some (reject_message fmt e)"
    if "truthy (body_detail e)"
    using that by (cases "body_detail e") (simp_all add: reject_message_def reject_value_cases)
  have l: "map_option (js_to_string fmt) (body_message e) = Some (reject_message fmt e)"
    if "\<not> truthy (body_detail e)" "truthy (body_message e)"
    using that by (cases "body_message e") (simp_all add: reject_message_def reject_value_cases)
  from a b c d f g h i j k l show ?thesis by blast
qed


theorem C8_witness:
  "reject_message whole_number_text validation_failure = ''koi_prad out of range''
   \<and> reject_message whole_number_text message_only_failure = ''Internal Server Error''
   \<and> reject_message whole_number_text network_failure = ''Network Error''
   \<and> reject_message whole_number_text silent_failure = ''Something went wrong''
   \<and> reject_message whole_number_text field_errors_failure = ''[object Object]''
   \<and> reject_message whole_number_text (error_with_body 500 (JObject [(''detail'', JObject [])]))
       = ''[object Object]''
   \<and> reject_message whole_number_text empty_detail_failure = []
   \<and> reject_message whole_number_text (validation_failure\<lparr>stack := None\<rparr>)
       = reject_message whole_number_text validation_failure
   \<and> apiClient_response whole_number_text None
         \<lparr>status = 422, data = Some (JObject [(''detail'', JString ''koi_prad out of range'')])\<rparr>
       = Rejected ''koi_prad out of range''"
proof -
  note t = C8_interceptor_message [where fmt = whole_number_text]
  note by_detail = t [THEN conjunct1]
  note by_message = t [THEN conjunct2, THEN conjunct1]
  note by_transport = t [THEN conjunct2, THEN conjunct2, THEN conjunct1]
  note by_default = t [THEN conjunct2, THEN conjunct2, THEN conjunct2, THEN conjunct1]
  note of_object = t [THEN conjunct2, THEN conjunct2, THEN conjunct2, THEN conjunct2, THEN conjunct2,
      THEN conjunct1]
  note of_empty_array = t [THEN conjunct2, THEN conjunct2, THEN conjunct2, THEN conjunct2,
      THEN conjunct2, THEN conjunct2, THEN conjunct1]
  note without_stack = t [THEN conjunct2, THEN conjunct2, THEN conjunct2, THEN conjunct2,
      THEN conjunct2, THEN conjunct2, THEN conjunct2, THEN conjunct1]
  note of_response = t [THEN conjunct2, THEN conjunct2, THEN conjunct2, THEN conjunct2,
      THEN conjunct2, THEN conjunct2, THEN conjunct2, THEN conjunct2, THEN conjunct1]
  note converted = t [THEN conjunct2, THEN conjunct2, THEN conjunct2, THEN conjunct2,
      THEN conjunct2, THEN conjunct2, THEN conjunct2, THEN conjunct2, THEN conjunct2, THEN conjunct1]
  have ne: "''koi_prad out of range'' \<noteq> []" "''Internal Server Error'' \<noteq> []"
    "''Network Error'' \<noteq> []" by simp_all
  have d1: "body_detail validation_failure = Some (JString ''koi_prad out of range'')"
    by (simp add: validation_failure_def error_with_body_def body_detail_def json_field_def)
  from by_detail [of validation_failure "''koi_prad out of range''"] d1 ne(1)
  have r1: "reject_message whole_number_text validation_failure = ''koi_prad out of range''" by blast
  have d2: "\<not> truthy (body_detail message_only_failure)"
    "body_message message_only_failure = Some (JString ''Internal Server Error'')"
    by (simp_all add: message_only_failure_def error_with_body_def body_detail_def body_message_def
        json_field_def)
  from by_message [of message_only_failure "''Internal Server Error''"] d2 ne(2)
  have r2: "reject_message whole_number_text message_only_failure = ''Internal Server Error''" by blast
  have d3: "\<not> truthy (body_detail network_failure)" "\<not> truthy (body_message network_failure)"
    "transport_message network_failure = Some ''Network Error''"
    by (simp_all add: network_failure_def body_detail_def body_message_def)
  from by_transport [of network_failure "''Network Error''"] d3 ne(3)
  have r3: "reject_message whole_number_text network_failure = ''Network Error''" by blast
  have d4: "\<not> truthy (body_detail silent_failure)" "\<not> truthy (body_message silent_failure)"
    "transport_message silent_failure = None"
    by (simp_all add: silent_failure_def body_detail_def body_message_def)
  from by_default [of silent_failure] d4
  have r4: "reject_message whole_number_text silent_failure = ''Something went wrong''" by blast
  have d5: "truthy (body_detail field_errors_failure)"
    "map_option (js_to_string whole_number_text) (body_detail field_errors_failure)
       = Some ''[object Object]''"
    by (simp_all add: field_errors_failure_def error_with_body_def body_detail_def json_field_def)
  from converted [of field_errors_failure] d5
  have r5: "reject_message whole_number_text field_errors_failure = ''[object Object]''" by simp
  have d6: "body_detail (error_with_body 500 (JObject [(''detail'', JObject [])])) = Some (JObject [])"
    by (simp add: error_with_body_def body_detail_def json_field_def)
  from of_object [of "error_with_body 500 (JObject [(''detail'', JObject [])])" "[]"] d6
  have r6: "reject_message whole_number_text (error_with_body 500 (JObject [(''detail'', JObject [])]))
       = ''[object Object]''" by blast
  have d7: "body_detail empty_detail_failure = Some (JArray [])"
    by (simp add: empty_detail_failure_def error_with_body_def body_detail_def json_field_def)
  from of_empty_array [of empty_detail_failure] d7
  have r7: "reject_message whole_number_text empty_detail_failure = []" by blast
  have r8: "reject_message whole_number_text (validation_failure\<lparr>stack := None\<rparr>)
       = reject_message whole_number_text validation_failure" by (rule without_stack)
  let ?r = "\<lparr>status = 422, data = Some (JObject [(''detail'', JString ''koi_prad out of range'')])\<rparr>"
  have d9: "\<not> (200 \<le> status ?r \<and> status ?r < 300)"
    "data ?r = Some (JObject [(''detail'', JString ''koi_prad out of range'')])" by simp_all
  from of_response [of ?r "''koi_prad out of range''" None] d9 ne(1)
  have r9: "apiClient_response whole_number_text None ?r = Rejected ''koi_prad out of range''" by blast
  from r1 r2 r3 r4 r5 r6 r7 r8 r9 show ?thesis by (intro conjI)
qed


section \<open>The predictions table\<close>

lemmas db_eval = seeded_db_def run_sql_def seed_data_def empty_db_def exec_insert_def nextval_def
  build_row_def varchar_def task_type_check_def permitted_def policies_def int4_def

lemma seeded_ids: "map row_id (rows (seeded_db now)) = [1, 2, 3]"
  by (simp add: db_eval)

lemma varchar_checked:
  assumes "varchar 50 t = Inr t'" and "task_type_check t'"
  shows "t' = t"
proof (cases "length t \<le> 50")
  case True
  with assms(1) show ?thesis by (simp add: varchar_def)
next
  case False
  with assms(1) have "t' = take 50 t" by (simp add: varchar_def split: if_splits)
  with False have "length t' = 50" by simp
  moreover from assms(2) have "length t' = 14 \<or> length t' = 10"
    by (auto simp: task_type_check_def)
  ultimately show ?thesis by simp
qed

lemma build_row_Inr:
  "build_row now i v = Inr r \<Longrightarrow> row_id r = i \<and> task_type_check (task_type r)"
  by (auto simp: build_row_def split: option.splits sum.splits if_splits)

lemma build_row_bad_task_type:
  "v_task_type v = Some t \<Longrightarrow> \<not> task_type_check t \<Longrightarrow> isl (build_row now i v)"
  by (auto simp: build_row_def dest: varchar_checked split: option.splits sum.splits)

lemma nextval_cases:
  "nextval d = (res, d') \<Longrightarrow>
     rows d' = rows d \<and>
     ((\<exists>e. res = Inl e \<and> d' = d) \<or> (res = Inr (seq_last d + 1) \<and> seq_last d' = seq_last d + 1))"
  by (auto simp: nextval_def split: if_splits)

lemma exec_insert_cases:
  assumes "exec_insert now v d = (res, d')"
  shows "seq_last d \<le> seq_last d' \<and>
     (rows d' = rows d \<and> isl res
      \<or> (\<exists>r. rows d' = rows d @ [r] \<and> res = Inr [r] \<and> row_id r \<notin> set (map row_id (rows d))
            \<and> task_type_check (task_type r) \<and> build_row now (row_id r) v = Inr r
            \<and> (v_id v = None \<longrightarrow> row_id r = seq_last d + 1 \<and> seq_last d' = seq_last d + 1)))"
proof -
  let ?pick = "case v_id v of
                 None \<Rightarrow> nextval d
               | Some i \<Rightarrow> (if int4 i then Inr i else Inl IntegerOutOfRange, d)"
  obtain ir d1 where g: "?pick = (ir, d1)" by (cases ?pick)
  have d1: "rows d1 = rows d \<and> seq_last d \<le> seq_last d1"
    using g by (auto simp: nextval_def split: option.splits if_splits)
  have fresh: "i = seq_last d + 1 \<and> seq_last d1 = seq_last d + 1" if "v_id v = None" "ir = Inr i" for i
    using g that by (auto simp: nextval_def split: if_splits)
  show ?thesis
  proof (cases ir)
    case (Inl e)
    with assms g have "res = Inl e \<and> d' = d1" by (simp add: exec_insert_def)
    with d1 show ?thesis by simp
  next
    case (Inr i)
    show ?thesis
    proof (cases "build_row now i v")
      case (Inl e)
      with assms g Inr have "res = Inl e \<and> d' = d1" by (simp add: exec_insert_def)
      with d1 show ?thesis by simp
    next
      case r: (Inr r)
      from build_row_Inr [OF r] have ri: "row_id r = i" and ck: "task_type_check (task_type r)"
        by simp_all
      show ?thesis
      proof (cases "permitted OpInsert r \<and> i \<notin> set (map row_id (rows d1))")
        case False
        with assms g Inr r have "isl res \<and> d' = d1"
          by (auto simp: exec_insert_def split: if_splits)
        with d1 show ?thesis by simp
      next
        case True
        with assms g Inr r have "res = Inr [r] \<and> d' = d1\<lparr>rows := rows d1 @ [r]\<rparr>"
          by (simp add: exec_insert_def)
        with d1 True ri ck r fresh [OF _ Inr] show ?thesis by auto
      qed
    qed
  qed
qed

lemma assign_keeps:
  "assign a r = Inr r' \<Longrightarrow>
     (task_type_check (task_type r) \<longrightarrow> task_type_check (task_type r'))
     \<and> (\<not> sets_id a \<longrightarrow> row_id r' = row_id r)"
  by (cases a) (auto split: if_splits sum.splits)

lemma assign_all_keeps:
  "assign_all as r = Inr r' \<Longrightarrow>
     (task_type_check (task_type r) \<longrightarrow> task_type_check (task_type r'))
     \<and> (list_all (\<lambda>a. \<not> sets_id a) as \<longrightarrow> row_id r' = row_id r)"
proof (induction as arbitrary: r)
  case Nil
  then show ?case by simp
next
  case (Cons a as)
  then obtain r1 where a: "assign a r = Inr r1" and rest: "assign_all as r1 = Inr r'"
    by (auto split: sum.splits)
  from assign_keeps [OF a] Cons.IH [OF rest] show ?case by auto
qed

lemma update_rows_keeps:
  "update_rows w as rs = Inr rs' \<Longrightarrow>
     (list_all (\<lambda>r. task_type_check (task_type r)) rs \<longrightarrow> list_all (\<lambda>r. task_type_check (task_type r)) rs')
     \<and> (list_all (\<lambda>a. \<not> sets_id a) as \<longrightarrow> map row_id rs' = map row_id rs)"
proof (induction rs arbitrary: rs')
  case Nil
  then show ?case by simp
next
  case (Cons r rs)
  then obtain r1 rs1 where
    h: "(if matches w r \<and> permitted OpUpdate r then assign_all as r else Inr r) = Inr r1"
    and t: "update_rows w as rs = Inr rs1" and e: "rs' = r1 # rs1"
    by (auto split: sum.splits)
  have "(task_type_check (task_type r) \<longrightarrow> task_type_check (task_type r1))
     \<and> (list_all (\<lambda>a. \<not> sets_id a) as \<longrightarrow> row_id r1 = row_id r)"
    using h assign_all_keeps [of as r r1] by (auto split: if_splits)
  with Cons.IH [OF t] e show ?case by auto
qed

lemma exec_distinct:
  "distinct (map row_id (rows d)) \<Longrightarrow> distinct (map row_id (rows (snd (exec_sql now c d))))"
proof (cases c)
  case (Insert v)
  obtain res d' where e: "exec_insert now v d = (res, d')" by (cases "exec_insert now v d")
  assume "distinct (map row_id (rows d))"
  with exec_insert_cases [OF e] Insert e show ?thesis by auto
next
  case (Select w) assume "distinct (map row_id (rows d))"
  with Select show ?thesis by simp
next
  case (Update w as) assume "distinct (map row_id (rows d))"
  with Update show ?thesis by (auto split: sum.splits)
next
  case (Delete w) assume "distinct (map row_id (rows d))"
  with Delete show ?thesis by (simp add: distinct_map_filter)
qed

lemma exec_checked: "checked d \<Longrightarrow> checked (snd (exec_sql now c d))"
proof (cases c)
  case (Insert v)
  obtain res d' where e: "exec_insert now v d = (res, d')" by (cases "exec_insert now v d")
  assume "checked d"
  with exec_insert_cases [OF e] Insert e show ?thesis by (auto simp: checked_def)
next
  case (Select w) assume "checked d"
  with Select show ?thesis by simp
next
  case (Update w as) assume "checked d"
  with Update show ?thesis
    by (auto simp: checked_def dest: update_rows_keeps split: sum.splits)
next
  case (Delete w) assume "checked d"
  with Delete show ?thesis by (auto simp: checked_def list_all_iff)
qed

lemma sorted_wrt_filter_less: "sorted_wrt (<) (map f xs) \<Longrightarrow> sorted_wrt (<) (map f (filter P xs))"
  by (induction xs) auto

lemma exec_ids_increasing:
  assumes "store_assigned c" "ids_increasing d"
  shows "ids_increasing (snd (exec_sql now c d))"
proof (cases c)
  case (Insert v)
  obtain res d' where e: "exec_insert now v d = (res, d')" by (cases "exec_insert now v d")
  from assms Insert have n: "v_id v = None" by simp
  from exec_insert_cases [OF e] n assms(2) Insert e show ?thesis
    by (fastforce simp: ids_increasing_def sorted_wrt_append list_all_iff)
next
  case (Select w)
  with assms show ?thesis by simp
next
  case (Update w as)
  with assms show ?thesis
    by (auto simp: ids_increasing_def list_all_iff dest!: update_rows_keeps split: sum.splits)
      (metis (no_types, lifting) image_iff list.set_map)+
next
  case (Delete w)
  with assms show ?thesis
    by (auto simp: ids_increasing_def list_all_iff sorted_wrt_filter_less)
qed

lemma run_sql_Cons: "run_sql ((now, c) # stmts) d = run_sql stmts (snd (exec_sql now c d))"
  by (simp add: run_sql_def)

lemma run_distinct:
  "distinct (map row_id (rows d)) \<Longrightarrow> distinct (map row_id (rows (run_sql stmts d)))"
proof (induction stmts arbitrary: d)
  case Nil
  then show ?case by (simp add: run_sql_def)
next
  case (Cons s stmts)
  obtain now c where s: "s = (now, c)" by (cases s)
  from Cons.IH [OF exec_distinct [OF Cons.prems]] show ?case by (simp add: s run_sql_Cons)
qed

lemma run_checked: "checked d \<Longrightarrow> checked (run_sql stmts d)"
proof (induction stmts arbitrary: d)
  case Nil
  then show ?case by (simp add: run_sql_def)
next
  case (Cons s stmts)
  obtain now c where s: "s = (now, c)" by (cases s)
  from Cons.IH [OF exec_checked [OF Cons.prems]] show ?case by (simp add: s run_sql_Cons)
qed

lemma run_ids_increasing:
  "list_all (\<lambda>s. store_assigned (snd s)) stmts \<Longrightarrow> ids_increasing d \<Longrightarrow> ids_increasing (run_sql stmts d)"
proof (induction stmts arbitrary: d)
  case Nil
  then show ?case by (simp add: run_sql_def)
next
  case (Cons s stmts)
  obtain now c where s: "s = (now, c)" by (cases s)
  from Cons.prems s have c: "store_assigned c" and rest: "list_all (\<lambda>s. store_assigned (snd s)) stmts"
    by simp_all
  from Cons.IH [OF rest exec_ids_increasing [OF c Cons.prems(2)]] show ?case
    by (simp add: s run_sql_Cons)
qed

text \<open>
  C6. The ids of the records in the store are pairwise distinct, whatever statements have
  run; and when every id is assigned by the store (no statement gives or rewrites an id),
  the ids increase strictly in insertion order.
\<close>

theorem C6_ids_unique_and_increasing:
  "distinct (map row_id (rows (run_sql stmts empty_db)))
   \<and> (list_all (\<lambda>s. store_assigned (snd s)) stmts \<longrightarrow>
        sorted_wrt (<) (map row_id (rows (run_sql stmts empty_db))))"
proof -
  have a: "distinct (map row_id (rows (run_sql stmts empty_db)))"
    by (rule run_distinct) (simp add: empty_db_def)
  have "ids_increasing empty_db" by (simp add: ids_increasing_def empty_db_def)
  then have "list_all (\<lambda>s. store_assigned (snd s)) stmts \<longrightarrow> ids_increasing (run_sql stmts empty_db)"
    by (simp add: run_ids_increasing)
  with a show ?thesis by (simp add: ids_increasing_def)
qed

theorem C6_witness:
  "list_all (\<lambda>s. store_assigned (snd s)) (seed_data 0)
   \<and> map row_id (rows (run_sql (seed_data 0) empty_db)) = [1, 2, 3]
   \<and> distinct (map row_id (rows (run_sql (seed_data 0) empty_db)))
   \<and> sorted_wrt (<) (map row_id (rows (run_sql (seed_data 0) empty_db)))"
proof -
  have s: "list_all (\<lambda>s. store_assigned (snd s)) (seed_data 0)"
    by (simp add: seed_data_def)
  have i: "map row_id (rows (run_sql (seed_data 0) empty_db)) = [1, 2, 3]"
    using seeded_ids [of 0] by (simp add: seeded_db_def)
  from C6_ids_unique_and_increasing [of "seed_data 0"] s i show ?thesis by simp
qed

subsection \<open>Statements that keep the rows\<close>

lemma appends_or_reads_keep_rows:
  assumes "appends_or_reads c"
  shows "prefix (rows d) (rows (snd (exec_sql now c d)))"
proof (cases c)
  case (Insert v)
  obtain res d' where e: "exec_insert now v d = (res, d')" by (cases "exec_insert now v d")
  from exec_insert_cases [OF e] Insert e show ?thesis by auto
next
  case (Select w)
  then show ?thesis by simp
next
  case (Update w as)
  with assms show ?thesis by simp
next
  case (Delete w)
  with assms show ?thesis by simp
qed

lemma run_sql_keeps_rows:
  "list_all (\<lambda>s. appends_or_reads (snd s)) stmts \<Longrightarrow> prefix (rows d) (rows (run_sql stmts d))"
proof (induction stmts arbitrary: d)
  case Nil
  show ?case by (simp add: run_sql_def)
next
  case (Cons s stmts)
  obtain now c where s: "s = (now, c)" by (cases s)
  from Cons.prems s have c: "appends_or_reads c"
    and rest: "list_all (\<lambda>s. appends_or_reads (snd s)) stmts" by simp_all
  have "prefix (rows d) (rows (snd (exec_sql now c d)))"
    using c by (rule appends_or_reads_keep_rows)
  also have "prefix (rows (snd (exec_sql now c d))) (rows (run_sql stmts (snd (exec_sql now c d))))"
    using rest by (rule Cons.IH)
  finally show ?case by (simp add: s run_sql_Cons)
qed

lemma core_step_keeps_rows: "prefix (rows d) (rows (core_step max_limit op d))"
proof (cases op)
  case (Append now h)
  let ?v = "\<lparr>v_id = None, v_task_type = Some (h_task_type h),
            v_input_features = Some (h_input_features h),
            v_output_result = Some (h_output_result h),
            v_model_name = Some (h_model_name h), v_created_at = None\<rparr>"
  have "prefix (rows d) (rows (snd (exec_sql now (Insert ?v) d)))"
    by (rule appends_or_reads_keep_rows) simp
  with Append show ?thesis by (simp add: store_append_def split_beta)
next
  case (ListRecords now task_filter limit offset)
  then show ?thesis by (simp add: store_list_def)
qed

lemma run_core_keeps_rows: "prefix (rows d) (rows (run_core max_limit ops d))"
proof (induction ops arbitrary: d)
  case Nil
  show ?case by (simp add: run_core_def)
next
  case (Cons op ops)
  have "prefix (rows d) (rows (core_step max_limit op d))" by (rule core_step_keeps_rows)
  also have "prefix (rows (core_step max_limit op d)) (rows (run_core max_limit ops (core_step max_limit op d)))"
    by (rule Cons.IH)
  finally show ?case by (simp add: run_core_def)
qed

text \<open>
  C7. No operation of the core changes or removes a record once it is in the table: after
  any sequence of appends and listings the rows that were there are still there, unchanged
  and in place, followed by the new ones. The same holds for the seed script, whose
  statements are all inserts, and the API client sends only \<^verbatim>\<open>GET\<close> and \<^verbatim>\<open>POST\<close>
  requests.
\<close>

theorem C7_core_never_changes_or_removes_rows:
  "prefix (rows d) (rows (run_core max_limit ops d))
   \<and> list_all (\<lambda>s. appends_or_reads (snd s)) (seed_data now)
   \<and> prefix (rows d) (rows (run_sql (seed_data now) d))
   \<and> req_method (home_handleSubmit taskType fs) = POST
   \<and> req_method (getPredictionHistory limit offset) = GET
   \<and> req_method getModelInfo = GET
   \<and> req_method checkHealth = GET"
proof -
  have s: "list_all (\<lambda>s. appends_or_reads (snd s)) (seed_data now)"
    by (simp add: seed_data_def)
  from run_core_keeps_rows s run_sql_keeps_rows [OF s] show ?thesis
    by (simp add: home_handleSubmit_def predictClassification_def predictRegression_def
        getPredictionHistory_def getModelInfo_def checkHealth_def)
qed

theorem C7_witness:
  "map row_id (rows (seeded_db 0)) = [1, 2, 3]
   \<and> prefix (rows (seeded_db 0))
        (rows (run_core 200 [Append 5 sample_record, ListRecords 6 None 50 0, Append 7 sample_record] (seeded_db 0)))
   \<and> map row_id (rows (run_core 200 [Append 5 sample_record, ListRecords 6 None 50 0, Append 7 sample_record]
                         (seeded_db 0))) = [1, 2, 3, 4, 5]"
proof -
  have i: "map row_id (rows (run_core 200 [Append 5 sample_record, ListRecords 6 None 50 0, Append 7 sample_record]
                         (seeded_db 0))) = [1, 2, 3, 4, 5]"
    by (simp add: run_core_def store_append_def store_list_def sample_record_def db_eval split: prod.splits)
  from C7_core_never_changes_or_removes_rows
         [of "seeded_db 0" 200 "[Append 5 sample_record, ListRecords 6 None 50 0, Append 7 sample_record]"]
       i seeded_ids [of 0]
  show ?thesis by simp
qed


text \<open>
  C10. Whatever statements have run, every record of the table has the task type
  \<^verbatim>\<open>classification\<close> or \<^verbatim>\<open>regression\<close>; an insert with another task type fails and
  leaves the rows as they are.
\<close>

theorem C10_task_type_is_checked:
  "list_all (\<lambda>r. task_type r = ''classification'' \<or> task_type r = ''regression'')
     (rows (run_sql stmts empty_db))
   \<and> (v_task_type v = Some t \<and> t \<noteq> ''classification'' \<and> t \<noteq> ''regression'' \<longrightarrow>
        isl (fst (exec_sql now (Insert v) d)) \<and> rows (snd (exec_sql now (Insert v) d)) = rows d)"
proof -
  have "checked empty_db" by (simp add: checked_def empty_db_def)
  then have "checked (run_sql stmts empty_db)" by (rule run_checked)
  then have a: "list_all (\<lambda>r. task_type r = ''classification'' \<or> task_type r = ''regression'')
     (rows (run_sql stmts empty_db))"
    by (simp add: checked_def task_type_check_def)
  have b: "isl (fst (exec_sql now (Insert v) d)) \<and> rows (snd (exec_sql now (Insert v) d)) = rows d"
    if t: "v_task_type v = Some t" and n: "t \<noteq> ''classification''" "t \<noteq> ''regression''"
  proof -
    from n have bad: "\<not> task_type_check t" by (simp add: task_type_check_def)
    have bl: "build_row now i v \<noteq> Inr r" for i r
      using build_row_bad_task_type [OF t bad, of now i] by auto
    obtain res d' where e: "exec_insert now v d = (res, d')" by (cases "exec_insert now v d")
    from exec_insert_cases [OF e] bl e show ?thesis by auto
  qed
  from a b show ?thesis by blast
qed

theorem C10_witness:
  "v_task_type unknown_task_insert = Some ''clustering''
   \<and> fst (exec_sql 0 (Insert unknown_task_insert) (seeded_db 0)) = Inl CheckViolation
   \<and> rows (snd (exec_sql 0 (Insert unknown_task_insert) (seeded_db 0))) = rows (seeded_db 0)
   \<and> list_all (\<lambda>r. task_type r = ''classification'' \<or> task_type r = ''regression'')
        (rows (run_sql [(0, Insert unknown_task_insert)] empty_db))"
proof -
  have t: "v_task_type unknown_task_insert = Some ''clustering''"
    by (simp add: unknown_task_insert_def)
  have e: "fst (exec_sql 0 (Insert unknown_task_insert) (seeded_db 0)) = Inl CheckViolation"
    by (simp add: unknown_task_insert_def db_eval sample_features_1_def)
  from C10_task_type_is_checked
         [of "[(0, Insert unknown_task_insert)]" unknown_task_insert "''clustering''" 0 "seeded_db 0"] t e
  show ?thesis by simp
qed

section \<open>Classification results\<close>

lemma emit_well_shaped:
  "\<bar>probs CONFIRMED + probs FALSE_POSITIVE - 1\<bar> \<le> 1 / 1000000 \<Longrightarrow> well_shaped (emit probs)"
  by (simp add: well_shaped_def emit_def argmax_label_def)

lemma normalised_sum:
  fixes a b :: real
  assumes "a + b \<noteq> 0"
  shows "a / (a + b) + b / (a + b) = 1"
  using assms by (simp add: add_divide_distrib [symmetric])

lemma seeded_rows_eval:
  "map output_result (filter (\<lambda>row. task_type row = ''classification'') (rows (seeded_db now))) =
    [JObject [(''prediction'', JString ''CONFIRMED''), (''confidence'', JNumber 0.92),
       (''probabilities'', JObject [(''CONFIRMED'', JNumber 0.92), (''FALSE POSITIVE'', JNumber 0.08)])],
     JObject [(''prediction'', JString ''FALSE POSITIVE''), (''confidence'', JNumber 0.78),
       (''probabilities'', JObject [(''CONFIRMED'', JNumber 0.22), (''FALSE POSITIVE'', JNumber 0.78)])]]"
  by (simp add: db_eval)

lemma seeded_classifications_ok:
  "list_all persisted_ok (filter (\<lambda>row. task_type row = ''classification'') (rows (seeded_db now)))"
proof -
  have "list_all (\<lambda>out. case decode_classification out of None \<Rightarrow> False | Some r \<Rightarrow> well_shaped r)
          (map output_result (filter (\<lambda>row. task_type row = ''classification'') (rows (seeded_db now))))"
    unfolding seeded_rows_eval
    by (simp add: decode_classification_def decode_label_def json_field_def json_number_def well_shaped_def)
  then show ?thesis by (simp add: list_all_iff persisted_ok_def)
qed

text \<open>
  C2. Every classification result that the Result Shaper emits, and every classification
  result persisted by the seed data, has class probabilities that sum to 1 within
  \<^verbatim>\<open>1e-6\<close>, a confidence equal to the probability of its label, and a label of greatest
  probability among the two classes. The shaper refuses exactly the scores whose sum is
  off 1 and within the threshold of zero.
\<close>

theorem C2_classification_results_well_shaped:
  assumes "0 \<le> eps"
  shows "(shape_classification eps raw = Inr r \<longrightarrow> well_shaped r)
    \<and> (isl (shape_classification eps raw) \<longleftrightarrow>
         \<bar>raw CONFIRMED + raw FALSE_POSITIVE - 1\<bar> > 1 / 1000000 \<and> \<bar>raw CONFIRMED + raw FALSE_POSITIVE\<bar> \<le> eps)
    \<and> list_all persisted_ok (filter (\<lambda>row. task_type row = ''classification'') (rows (seeded_db now)))"
proof -
  let ?t = "raw CONFIRMED + raw FALSE_POSITIVE"
  have a: "well_shaped r" if h: "shape_classification eps raw = Inr r"
  proof (cases "\<bar>?t - 1\<bar> \<le> 1 / 1000000")
    case True
    with h have "r = emit raw" by (simp add: shape_classification_def Let_def)
    with True show ?thesis by (simp add: emit_well_shaped)
  next
    case False
    with h have ne: "\<not> \<bar>?t\<bar> \<le> eps" and r: "r = emit (\<lambda>l. raw l / ?t)"
      by (auto simp: shape_classification_def Let_def split: if_splits)
    from ne assms have "?t \<noteq> 0" by auto
    then have "raw CONFIRMED / ?t + raw FALSE_POSITIVE / ?t = 1" by (rule normalised_sum)
    then have "\<bar>raw CONFIRMED / ?t + raw FALSE_POSITIVE / ?t - 1\<bar> \<le> 1 / 1000000" by simp
    with r show ?thesis by (simp add: emit_well_shaped)
  qed
  have b: "isl (shape_classification eps raw) \<longleftrightarrow>
         \<bar>?t - 1\<bar> > 1 / 1000000 \<and> \<bar>?t\<bar> \<le> eps"
    by (auto simp: shape_classification_def Let_def)
  from a b seeded_classifications_ok show ?thesis by blast
qed

theorem C2_witness:
  "(0::real) \<le> 1 / 1000
   \<and> \<not> isl (shape_classification (1 / 1000) sample_scores)
   \<and> well_shaped (projr (shape_classification (1 / 1000) sample_scores))
   \<and> prediction (projr (shape_classification (1 / 1000) sample_scores)) = CONFIRMED
   \<and> confidence (projr (shape_classification (1 / 1000) sample_scores)) = 3 / 4"
proof -
  have e: "shape_classification (1 / 1000) sample_scores = Inr (emit (\<lambda>l. sample_scores l / 4))"
    by (simp add: shape_classification_def sample_scores_def)
  have z: "(0::real) \<le> 1 / 1000" by simp
  from C2_classification_results_well_shaped [OF z, of sample_scores "emit (\<lambda>l. sample_scores l / 4)" 0] e
  show ?thesis by (simp add: emit_def argmax_label_def sample_scores_def)
qed

section \<open>Regression results and the chart\<close>






text \<open>The lower bound of a negative estimate is clipped to zero and lies above the
  estimate: the property of a served result needs an estimate that is not negative.\<close>

lemma clipped_bound_above_negative_estimate:
  "interval_lower (shape_regression (- 1) 0) = 0 \<and> \<not> interval_ok (shape_regression (- 1) 0)"
  by (simp add: shape_regression_def interval_ok_def)




end
